theory Spec2Isabelle
  imports Complex_Main
begin

section \<open>Routing interfaces (src/algorithms/routing.py)\<close>

text \<open>
  \<^verbatim>\<open>Position\<close>, \<^verbatim>\<open>Drone\<close> and the module \<^verbatim>\<open>config\<close> are imported by routing.py
  from files that are not part of the sources at hand. The model therefore takes the
  method \<^verbatim>\<open>Position.distance_to\<close> as a parameter \<open>distance_to\<close> over an arbitrary
  type of positions, a drone as the record of the two fields that routing.py reads, and
  the two configuration constants as a record. Python floats are idealised as reals.
\<close>

record drone =
  battery_level :: real
  speed :: real

record config =
  DRONE_BATTERY_LIFE :: real
  MAX_ORDER_DELAY :: real

datatype py_error = ZeroDivisionError | TypeError

subsection \<open>SimpleRouting and AStarRouting\<close>

text \<open>
  \<^verbatim>\<open>route = [start]; for waypoint in waypoints: route.append(waypoint);
  route.append(end); return route\<close> in both classes.
\<close>

definition simple_calculate_route :: "'p \<Rightarrow> 'p list \<Rightarrow> 'p \<Rightarrow> 'p list" where
  "simple_calculate_route start waypoints end_pos =
     fold (\<lambda>waypoint route. route @ [waypoint]) waypoints [start] @ [end_pos]"

definition astar_calculate_route :: "'p \<Rightarrow> 'p list \<Rightarrow> 'p \<Rightarrow> 'p list" where
  "astar_calculate_route start waypoints end_pos =
     fold (\<lambda>waypoint route. route @ [waypoint]) waypoints [start] @ [end_pos]"

text \<open>
  \<^verbatim>\<open>if len(route) < 2: return 0.0\<close>, then the loop
  \<^verbatim>\<open>for i in range(len(route) - 1): total_distance += route[i].distance_to(route[i + 1])\<close>.
  Inside the loop \<open>i + 1 < len(route)\<close>, so no index is out of range.
\<close>

definition simple_calculate_distance :: "('p \<Rightarrow> 'p \<Rightarrow> real) \<Rightarrow> 'p list \<Rightarrow> real" where
  "simple_calculate_distance distance_to route =
     (if length route < 2 then 0
      else fold (\<lambda>i total_distance. total_distance + distance_to (route ! i) (route ! (i + 1)))
             [0..<length route - 1] 0)"

definition astar_calculate_path_distance :: "('p \<Rightarrow> 'p \<Rightarrow> real) \<Rightarrow> 'p \<Rightarrow> 'p \<Rightarrow> real" where
  "astar_calculate_path_distance distance_to start end_pos = distance_to start end_pos"

definition astar_calculate_distance :: "('p \<Rightarrow> 'p \<Rightarrow> real) \<Rightarrow> 'p list \<Rightarrow> real" where
  "astar_calculate_distance distance_to route =
     (if length route < 2 then 0
      else fold (\<lambda>i total_distance.
                   total_distance + astar_calculate_path_distance distance_to (route ! i) (route ! (i + 1)))
             [0..<length route - 1] 0)"

text \<open>
  The specification's reading of a route's length: the distances of the consecutive
  pairs of the polyline, added up.
\<close>

definition consecutive_pairs :: "'a list \<Rightarrow> ('a \<times> 'a) list" where
  "consecutive_pairs route = zip route (tl route)"

definition sum_of_consecutive_distances :: "('p \<Rightarrow> 'p \<Rightarrow> real) \<Rightarrow> 'p list \<Rightarrow> real" where
  "sum_of_consecutive_distances distance_to route =
     sum_list (map (\<lambda>(a, b). distance_to a b) (consecutive_pairs route))"

subsection \<open>RouteValidator.validate_route_feasibility\<close>

text \<open>
  The second component of the result is a text; the two formatted messages are
  represented by a constructor that carries the two numbers they print.
\<close>

datatype message =
    Empty_route
  | Exceeds_battery_range real real
  | Exceeds_maximum_time real real
  | Route_is_feasible

text \<open>
  \<^verbatim>\<open>total_distance / drone.speed\<close> raises \<^verbatim>\<open>ZeroDivisionError\<close> for a zero
  speed; this is the only statement of the function that can raise.
\<close>

definition validate_route_feasibility ::
  "('p \<Rightarrow> 'p \<Rightarrow> real) \<Rightarrow> config \<Rightarrow> 'p list \<Rightarrow> drone \<Rightarrow> py_error + (bool \<times> message)" where
  "validate_route_feasibility distance_to cfg route d =
     (if route = [] then Inr (False, Empty_route)
      else
        let total_distance =
              fold (\<lambda>i total. total + distance_to (route ! i) (route ! (i + 1)))
                [0..<length route - 1] 0;
            max_distance = battery_level d * speed d * DRONE_BATTERY_LIFE cfg
        in if total_distance > max_distance
           then Inr (False, Exceeds_battery_range total_distance max_distance)
           else if speed d = 0 then Inl ZeroDivisionError
           else
             let estimated_time = total_distance / speed d;
                 max_delivery_time = MAX_ORDER_DELAY cfg
             in if estimated_time > max_delivery_time
                then Inr (False, Exceeds_maximum_time estimated_time max_delivery_time)
                else Inr (True, Route_is_feasible))"

text \<open>
  Modelled from the spec: \<^verbatim>\<open>Position.distance_to\<close> (models/entities.py) is not among
  the sources; section 6 of the specification says that distances are Euclidean
  (\<^verbatim>\<open>hypot\<close>). Used only to instantiate the parameter \<open>distance_to\<close> at concrete inputs.
\<close>

definition euclidean :: "real \<times> real \<Rightarrow> real \<times> real \<Rightarrow> real" where
  "euclidean a b = sqrt ((fst b - fst a)\<^sup>2 + (snd b - snd a)\<^sup>2)"

section \<open>Visibility-graph planner (src/algorithms/test.py)\<close>

text \<open>
  Points are the pairs of integers that the editor produces (mouse positions and their
  integer means), so the orientation test is exact; \<^verbatim>\<open>math.hypot\<close> returns a float,
  idealised as a real. Python compares tuples lexicographically.
\<close>

type_synonym point = "int \<times> int"
type_synonym segment = "point \<times> point"
type_synonym polygon = "point list"

subsection \<open>Geometry kernel\<close>

definition vector :: "point \<Rightarrow> point \<Rightarrow> int \<times> int" where
  "vector a b = (fst b - fst a, snd b - snd a)"

definition ccw :: "point \<Rightarrow> point \<Rightarrow> point \<Rightarrow> int" where
  "ccw A B C = (let a = vector A B; b = vector A C in fst a * snd b - snd a * fst b)"

definition tuple_less :: "point \<Rightarrow> point \<Rightarrow> bool" where
  "tuple_less a b \<longleftrightarrow> fst a < fst b \<or> (fst a = fst b \<and> snd a < snd b)"

text \<open>Result of \<^verbatim>\<open>segments_intersect\<close>: 0 not cross, 1 cross, 2 overlap.\<close>

definition segments_intersect :: "segment \<Rightarrow> segment \<Rightarrow> nat" where
  "segments_intersect l1 l2 =
     (let A = (if tuple_less (snd l1) (fst l1) then snd l1 else fst l1);
          B = (if tuple_less (snd l1) (fst l1) then fst l1 else snd l1);
          C = (if tuple_less (snd l2) (fst l2) then snd l2 else fst l2);
          D = (if tuple_less (snd l2) (fst l2) then fst l2 else snd l2);
          abc = ccw A B C;
          abd = ccw A B D;
          cda = ccw C D A;
          cdb = ccw C D B;
          x = abc * abd;
          y = cda * cdb
      in if abc = abd \<and> abd = 0 then
           (if tuple_less B C \<or> tuple_less D A then 0
            else if B = C \<or> D = A then 1
            else 2)
         else if x \<le> 0 \<and> y \<le> 0 then 1
         else 0)"

text \<open>
  Python indexing with a possibly negative index: \<^verbatim>\<open>polygon[i-1]\<close> is the last vertex
  for \<open>i = 0\<close>. Every index used below lies within \<open>range(len(polygon))\<close> shifted by
  \<open>-1\<close>, so no \<^verbatim>\<open>IndexError\<close> can occur.
\<close>

definition py_index :: "'a list \<Rightarrow> int \<Rightarrow> 'a" where
  "py_index xs k = (if k < 0 then xs ! nat (int (length xs) + k) else xs ! nat k)"

text \<open>Result of \<^verbatim>\<open>segment_intersects_polygon\<close>: 0 not cross, 1 touch, 2 intersect.\<close>

definition segment_intersects_polygon :: "segment \<Rightarrow> polygon \<Rightarrow> nat" where
  "segment_intersects_polygon line polygon =
     fold (\<lambda>i result.
             if fst line = polygon ! i \<or> snd line = polygon ! i
                \<or> fst line = py_index polygon (int i - 1) \<or> snd line = py_index polygon (int i - 1)
             then max result 1
             else if segments_intersect line (py_index polygon (int i - 1), polygon ! i) \<noteq> 0 then 2
             else result)
       [0..<length polygon] 0"

definition dist_points :: "point \<Rightarrow> point \<Rightarrow> real" where
  "dist_points a b = (let v = vector a b in sqrt ((real_of_int (fst v))\<^sup>2 + (real_of_int (snd v))\<^sup>2))"

subsection \<open>Construction of the visibility graph\<close>

text \<open>
  The inner \<^verbatim>\<open>for other_polygon in polygons: if ... == 2: break\<close> with its
  \<^verbatim>\<open>else\<close> branch: the branch runs when no polygon of the list gives 2.
\<close>

definition visible :: "polygon list \<Rightarrow> point \<Rightarrow> point \<Rightarrow> bool" where
  "visible polygons p other_point =
     list_all (\<lambda>other_polygon. segment_intersects_polygon (p, other_point) other_polygon \<noteq> 2) polygons"

type_synonym graph = "nat list list"

text \<open>
  The loop \<^verbatim>\<open>for j, other_point in enumerate(table)\<close> for the vertex with node number
  \<open>v\<close>: it appends \<open>v\<close> to \<open>graph[j]\<close> and \<open>j\<close> to the vertex's own list \<open>edges[i]\<close>.
\<close>

definition connect_vertex ::
  "polygon list \<Rightarrow> point list \<Rightarrow> point \<Rightarrow> nat \<Rightarrow> graph \<times> nat list \<Rightarrow> graph \<times> nat list" where
  "connect_vertex polygons table p v =
     fold (\<lambda>j (graph, edge).
             if visible polygons p (table ! j) then (graph[j := graph ! j @ [v]], edge @ [j])
             else (graph, edge))
       [0..<length table]"

text \<open>
  The body of \<^verbatim>\<open>for i in range(len(polygon))\<close>: the new list \<open>edges[i]\<close> starts
  with the cyclic predecessor and successor of vertex \<open>i\<close> and is then filled by the loop
  over the table.
\<close>

definition add_vertex ::
  "polygon list \<Rightarrow> point list \<Rightarrow> polygon \<Rightarrow> nat \<Rightarrow> graph \<times> graph \<Rightarrow> graph \<times> graph" where
  "add_vertex polygons table polygon i ge =
     (let offset = length table;
          r = connect_vertex polygons table (polygon ! i) (offset + i)
                (fst ge, [offset + nat ((int i - 1) mod int (length polygon)),
                          offset + (i + 1) mod length polygon])
      in (fst r, snd ge @ [snd r]))"

text \<open>
  One round of \<^verbatim>\<open>for polygon in polygons\<close>. The table is extended only after all
  vertices of the polygon have been handled, so a vertex is connected by visibility to the
  vertices of earlier polygons only.
\<close>

definition add_polygon :: "polygon list \<Rightarrow> polygon \<Rightarrow> point list \<times> graph \<Rightarrow> point list \<times> graph" where
  "add_polygon polygons polygon tg =
     (let ge = fold (add_vertex polygons (fst tg) polygon) [0..<length polygon] (snd tg, [])
      in (fst tg @ polygon, fst ge @ snd ge))"

definition build_graph :: "polygon list \<Rightarrow> point list \<times> graph" where
  "build_graph polygons = fold (add_polygon polygons) polygons ([], [])"

subsection \<open>Shortest-path search\<close>

text \<open>
  The heap holds triples \<open>(f, d, x)\<close>, ordered as Python orders tuples.
  \<^verbatim>\<open>heapq.heappop\<close> removes and returns the least entry; which of two equal entries is
  returned cannot be observed, so the heap is modelled by the list of its entries.
\<close>

type_synonym entry = "real \<times> real \<times> nat"

definition entry_less :: "entry \<Rightarrow> entry \<Rightarrow> bool" where
  "entry_less a b \<longleftrightarrow>
     fst a < fst b
     \<or> (fst a = fst b \<and> (fst (snd a) < fst (snd b)
                          \<or> (fst (snd a) = fst (snd b) \<and> snd (snd a) < snd (snd b))))"

definition heap_min :: "entry list \<Rightarrow> entry" where
  "heap_min q = fold (\<lambda>e m. if entry_less e m then e else m) (tl q) (hd q)"

definition heappop :: "entry list \<Rightarrow> entry \<times> entry list" where
  "heappop q = (heap_min q, remove1 (heap_min q) q)"

definition heappush :: "entry list \<Rightarrow> entry \<Rightarrow> entry list" where
  "heappush q e = q @ [e]"

record search_state =
  dist_table :: "real list"
  connection :: "nat option list"
  queue :: "entry list"

text \<open>The body of \<^verbatim>\<open>for y in graph[x]\<close>.\<close>

definition relax :: "point list \<Rightarrow> nat \<Rightarrow> nat \<Rightarrow> search_state \<Rightarrow> search_state" where
  "relax table x y s =
     (let d' = dist_points (table ! x) (table ! y) + dist_table s ! x
      in if dist_table s ! y \<noteq> - 1 \<and> d' \<ge> dist_table s ! y then s
         else s\<lparr>dist_table := (dist_table s)[y := d'],
                connection := (connection s)[y := Some x],
                queue := heappush (queue s) (d' + dist_points (table ! 1) (table ! y), d', y)\<rparr>)"

text \<open>The loop \<^verbatim>\<open>while queue\<close>; \<open>None\<close> stands for a loop that does not stop.\<close>

partial_function (option) search :: "point list \<Rightarrow> graph \<Rightarrow> search_state \<Rightarrow> search_state option" where
  "search table graph s =
     (if queue s = [] then Some s
      else
        let popped = heappop (queue s);
            d = fst (snd (fst popped));
            x = snd (snd (fst popped));
            s' = s\<lparr>queue := snd popped\<rparr>
        in if x = 1 then Some s'
           else if dist_table s' ! x \<noteq> d then search table graph s'
           else search table graph (fold (relax table x) (graph ! x) s'))"

definition initial_state :: "nat \<Rightarrow> search_state" where
  "initial_state n =
     \<lparr>dist_table = (replicate n (- 1))[0 := 0], connection = replicate n None, queue = [(0, 0, 0)]\<rparr>"

subsection \<open>Reading the route off the predecessor table\<close>

datatype 'a result = Returns 'a | Raises py_error

text \<open>
  \<^verbatim>\<open>x = 1; route = [x]; while x != 0: x = connection[x]; route.append(x)\<close>.
  When \<^verbatim>\<open>connection[x]\<close> is \<^verbatim>\<open>None\<close>, the next round evaluates
  \<^verbatim>\<open>connection[None]\<close>, which raises \<^verbatim>\<open>TypeError\<close>.
\<close>

partial_function (option) walk_back :: "nat option list \<Rightarrow> nat \<Rightarrow> nat list \<Rightarrow> nat list result option" where
  "walk_back conn node route =
     (if node = 0 then Some (Returns route)
      else case conn ! node of
             None \<Rightarrow> Some (Raises TypeError)
           | Some node' \<Rightarrow> walk_back conn node' (route @ [node']))"

subsection \<open>The planner\<close>

text \<open>
  Everything \<^verbatim>\<open>routing\<close> does before it returns or recurses: the relevance filter, the
  graph, the search and the route of node numbers (reversed, so that it starts at node 0).
\<close>

definition considered_polygons :: "point \<Rightarrow> point \<Rightarrow> polygon list \<Rightarrow> polygon list" where
  "considered_polygons start end_point buildings =
     [[start], [end_point]]
       @ filter (\<lambda>polygon. segment_intersects_polygon (start, end_point) polygon \<noteq> 0) buildings"

definition provisional_route ::
  "point \<Rightarrow> point \<Rightarrow> polygon list \<Rightarrow> (point list \<times> nat list) result option" where
  "provisional_route start end_point buildings =
     (let tg = build_graph (considered_polygons start end_point buildings);
          table = fst tg;
          graph = snd tg
      in case search table graph (initial_state (length table)) of
           None \<Rightarrow> None
         | Some s \<Rightarrow>
             (case walk_back (connection s) 1 [1] of
                None \<Rightarrow> None
              | Some (Raises e) \<Rightarrow> Some (Raises e)
              | Some (Returns route) \<Rightarrow> Some (Returns (table, rev route))))"

text \<open>
  \<^verbatim>\<open>routing\<close> returns the polyline together with what it printed: the depth guard
  prints its arguments, and nothing else prints. The loop over the segments of the
  provisional route stops at the first call that raises.
\<close>

type_synonym printed = "(point \<times> point \<times> polygon list) list"

definition extend_pop ::
  "point list \<times> printed \<Rightarrow> (point list \<times> printed) result option
     \<Rightarrow> (point list \<times> printed) result option" where
  "extend_pop acc sub =
     (case sub of
        None \<Rightarrow> None
      | Some (Raises e) \<Rightarrow> Some (Raises e)
      | Some (Returns (r, out)) \<Rightarrow> Some (Returns (butlast (fst acc @ r), snd acc @ out)))"

function routing ::
  "point \<Rightarrow> point \<Rightarrow> polygon list \<Rightarrow> nat \<Rightarrow> (point list \<times> printed) result option" where
  "routing start end_point buildings depth =
     (if depth > 100 then Some (Returns ([start, end_point], [(start, end_point, buildings)]))
      else
        case provisional_route start end_point buildings of
          None \<Rightarrow> None
        | Some (Raises e) \<Rightarrow> Some (Raises e)
        | Some (Returns (table, route)) \<Rightarrow>
            if length route = 2 then Some (Returns (map (\<lambda>x. table ! x) route, []))
            else
              (case fold (\<lambda>i acc.
                            case acc of
                              None \<Rightarrow> None
                            | Some (Raises e) \<Rightarrow> Some (Raises e)
                            | Some (Returns new_route) \<Rightarrow>
                                extend_pop new_route
                                  (routing (table ! (route ! i)) (table ! (route ! (i + 1)))
                                     buildings (depth + 1)))
                      [0..<length route - 1] (Some (Returns ([], [])))
               of
                 None \<Rightarrow> None
               | Some (Raises e) \<Rightarrow> Some (Raises e)
               | Some (Returns (new_route, out)) \<Rightarrow>
                   Some (Returns (new_route @ [table ! last route], out))))"
  by pat_completeness auto
termination
  by (relation "measure (\<lambda>(start, end_point, buildings, depth). 101 - depth)") auto

declare routing.simps [simp del]

section \<open>Auxiliary notions\<close>

text \<open>
  The adjacency list that the loops give to vertex \<open>i\<close> of a polygon while the table
  holds the earlier polygons, the nodes of that polygon that the loops append to the list
  of an earlier node \<open>j\<close>, and the well-formedness of a graph over a table.
\<close>

definition neighbours :: "polygon list \<Rightarrow> point list \<Rightarrow> polygon \<Rightarrow> nat \<Rightarrow> nat list" where
  "neighbours P table polygon i =
     [length table + nat ((int i - 1) mod int (length polygon)), length table + (i + 1) mod length polygon]
       @ filter (\<lambda>j. visible P (polygon ! i) (table ! j)) [0..<length table]"

definition later_nodes :: "polygon list \<Rightarrow> point list \<Rightarrow> polygon \<Rightarrow> nat \<Rightarrow> nat \<Rightarrow> nat list" where
  "later_nodes P table polygon m j =
     map (\<lambda>i. length table + i) (filter (\<lambda>i. visible P (polygon ! i) (table ! j)) [0..<m])"

definition graph_ok :: "point list \<Rightarrow> graph \<Rightarrow> bool" where
  "graph_ok table graph \<longleftrightarrow>
     length graph = length table \<and> (\<forall>u<length graph. \<forall>v\<in>set (graph ! u). v < length table)"

section \<open>Properties of the routing interfaces\<close>

lemma fold_append_waypoints: "fold (\<lambda>w route. route @ [w]) ws acc = acc @ ws"
  by (induction ws arbitrary: acc) simp_all

lemma fold_index_sum:
  "fold (\<lambda>i (total::real). total + f i) [0..<n] acc = acc + (\<Sum>i<n. f i)"
  by (induction n arbitrary: acc) (simp_all add: add.assoc)

lemma consecutive_sum_index:
  "sum_of_consecutive_distances dt route = (\<Sum>i<length route - 1. dt (route ! i) (route ! (i + 1)))"
proof -
  have len: "length (consecutive_pairs route) = length route - 1"
    by (simp add: consecutive_pairs_def)
  have "sum_of_consecutive_distances dt route
          = (\<Sum>i<length route - 1. (\<lambda>(a, b). dt a b) (consecutive_pairs route ! i))"
    unfolding sum_of_consecutive_distances_def
    by (simp add: sum_list_sum_nth len atLeast0LessThan)
  also have "\<dots> = (\<Sum>i<length route - 1. dt (route ! i) (route ! (i + 1)))"
    by (rule sum.cong) (simp_all add: consecutive_pairs_def nth_tl)
  finally show ?thesis .
qed

lemma consecutive_sum_short: "length route < 2 \<Longrightarrow> sum_of_consecutive_distances dt route = 0"
  by (cases route; cases "tl route")
     (simp_all add: sum_of_consecutive_distances_def consecutive_pairs_def)

lemma simple_distance_eq:
  "simple_calculate_distance dt route = sum_of_consecutive_distances dt route"
  by (simp add: simple_calculate_distance_def fold_index_sum consecutive_sum_index
        consecutive_sum_short)

lemma astar_distance_eq:
  "astar_calculate_distance dt route = sum_of_consecutive_distances dt route"
  by (simp add: astar_calculate_distance_def astar_calculate_path_distance_def fold_index_sum
        consecutive_sum_index consecutive_sum_short)

text \<open>
  Claim C10. Both routing classes return the route \<open>[start] + waypoints + [end]\<close>, and
  both compute the length of a route as the sum of the distances of its consecutive pairs,
  which is 0 for a route of fewer than two points: the A* class is extensionally equal to
  the straight-line class.
\<close>

theorem routing_variants_coincide:
  "simple_calculate_route start waypoints end_pos = [start] @ waypoints @ [end_pos]
   \<and> astar_calculate_route start waypoints end_pos = [start] @ waypoints @ [end_pos]
   \<and> simple_calculate_distance dt route = sum_of_consecutive_distances dt route
   \<and> astar_calculate_distance dt route = sum_of_consecutive_distances dt route
   \<and> (length route < 2 \<longrightarrow>
        simple_calculate_distance dt route = 0 \<and> astar_calculate_distance dt route = 0)"
  by (simp add: simple_calculate_route_def astar_calculate_route_def fold_append_waypoints
        simple_distance_eq astar_distance_eq consecutive_sum_short)

theorem routing_variants_coincide_witness:
  "simple_calculate_route (0::real, 0::real) [(3, 4)] (3, 0) = [(0, 0), (3, 4), (3, 0)]
   \<and> astar_calculate_route (0::real, 0::real) [(3, 4)] (3, 0) = [(0, 0), (3, 4), (3, 0)]
   \<and> length [(1::real, 1::real)] < 2
   \<and> simple_calculate_distance euclidean [(1, 1)] = 0
   \<and> astar_calculate_distance euclidean [(1, 1)] = 0"
  using routing_variants_coincide [of "(0::real, 0::real)" "[(3, 4)]" "(3, 0)" euclidean "[(1, 1)]"]
  by simp

lemma feasibility_total_distance:
  "fold (\<lambda>i total. total + dt (route ! i) (route ! (i + 1))) [0..<length route - 1] (0::real)
     = sum_of_consecutive_distances dt route"
  by (simp add: fold_index_sum consecutive_sum_index)

text \<open>
  Claim C8, as the code has it. For a route that is not empty and a drone whose speed is not
  zero (the drone specification requires a positive speed), the validator returns a pair
  whose first component is true exactly when the length of the polyline is at most
  \<open>battery_level * speed * DRONE_BATTERY_LIFE\<close> and the length divided by the speed is
  at most \<open>MAX_ORDER_DELAY\<close>. The empty route is reported as infeasible.
\<close>

theorem feasibility_of_nonempty_route:
  "(route \<noteq> [] \<and> speed d \<noteq> 0 \<longrightarrow>
      (\<exists>ok msg. validate_route_feasibility dt cfg route d = Inr (ok, msg)
         \<and> (ok \<longleftrightarrow>
              sum_of_consecutive_distances dt route
                \<le> battery_level d * speed d * DRONE_BATTERY_LIFE cfg
              \<and> sum_of_consecutive_distances dt route / speed d \<le> MAX_ORDER_DELAY cfg)))
   \<and> validate_route_feasibility dt cfg [] d = Inr (False, Empty_route)"
  unfolding validate_route_feasibility_def feasibility_total_distance Let_def
  by auto

theorem feasibility_of_nonempty_route_witness:
  "[(0::real, 0::real), (3, 4)] \<noteq> [] \<and> speed \<lparr>battery_level = 1, speed = 2\<rparr> \<noteq> 0
   \<and> validate_route_feasibility euclidean \<lparr>DRONE_BATTERY_LIFE = 10, MAX_ORDER_DELAY = 3\<rparr>
        [(0, 0), (3, 4)] \<lparr>battery_level = 1, speed = 2\<rparr> = Inr (True, Route_is_feasible)
   \<and> sum_of_consecutive_distances euclidean [(0, 0), (3, 4)] = 5"
  using feasibility_of_nonempty_route
    [of "[(0::real, 0::real), (3, 4)]" "\<lparr>battery_level = 1, speed = 2\<rparr>" euclidean
        "\<lparr>DRONE_BATTERY_LIFE = 10, MAX_ORDER_DELAY = 3\<rparr>"]
  by (simp add: validate_route_feasibility_def sum_of_consecutive_distances_def
        consecutive_pairs_def euclidean_def)

text \<open>
  The claim as stated fails at the empty route: its length 0 is within both budgets of a
  drone with battery level 1 and speed 1 (battery life 1, maximal delay 1), but the
  validator answers false.
\<close>

theorem feasibility_empty_route_counterexample:
  "validate_route_feasibility euclidean \<lparr>DRONE_BATTERY_LIFE = 1, MAX_ORDER_DELAY = 1\<rparr>
      [] \<lparr>battery_level = 1, speed = 1\<rparr> = Inr (False, Empty_route)
   \<and> sum_of_consecutive_distances euclidean []
        \<le> battery_level \<lparr>battery_level = 1, speed = 1\<rparr> * speed \<lparr>battery_level = 1, speed = 1\<rparr>
            * DRONE_BATTERY_LIFE \<lparr>DRONE_BATTERY_LIFE = 1, MAX_ORDER_DELAY = 1\<rparr>
   \<and> sum_of_consecutive_distances euclidean [] / speed \<lparr>battery_level = 1, speed = 1\<rparr>
        \<le> MAX_ORDER_DELAY \<lparr>DRONE_BATTERY_LIFE = 1, MAX_ORDER_DELAY = 1\<rparr>"
  by (simp add: validate_route_feasibility_def sum_of_consecutive_distances_def
        consecutive_pairs_def)

text \<open>
  A drone of speed 0 on a one-point route makes the validator raise: the division is
  reached because the length 0 does not exceed the battery range 0.
\<close>

lemma feasibility_zero_speed_raises:
  "validate_route_feasibility euclidean \<lparr>DRONE_BATTERY_LIFE = 1, MAX_ORDER_DELAY = 1\<rparr>
      [(0, 0)] \<lparr>battery_level = 1, speed = 0\<rparr> = Inl ZeroDivisionError"
  by (simp add: validate_route_feasibility_def)

section \<open>The visibility graph\<close>

lemma connect_fold:
  "n \<le> length graph \<Longrightarrow>
   fold (\<lambda>j (graph, edge). if vis j then (graph[j := graph ! j @ [v]], edge @ [j]) else (graph, edge))
        [0..<n] (graph, edge)
     = (map (\<lambda>j. if j < n \<and> vis j then graph ! j @ [v] else graph ! j) [0..<length graph],
        edge @ filter vis [0..<n])"
proof (induction n)
  case 0
  then show ?case by (simp add: map_nth)
next
  case (Suc n)
  then have n: "n < length graph" by simp
  have upd: "(map (\<lambda>j. if j < n \<and> vis j then graph ! j @ [v] else graph ! j) [0..<length graph])
               [n := graph ! n @ [v]]
             = map (\<lambda>j. if j < Suc n \<and> (j = n \<or> vis j) then graph ! j @ [v] else graph ! j) [0..<length graph]"
    using n by (auto intro!: nth_equalityI simp: nth_list_update)
  show ?case using Suc n
    by (auto simp: upd less_Suc_eq intro!: nth_equalityI)
qed

lemma connect_vertex_eq:
  "length graph = length table \<Longrightarrow>
   connect_vertex P table p v (graph, edge)
     = (map (\<lambda>j. if visible P p (table ! j) then graph ! j @ [v] else graph ! j) [0..<length graph],
        edge @ filter (\<lambda>j. visible P p (table ! j)) [0..<length table])"
  unfolding connect_vertex_def
  by (subst connect_fold) auto


lemma vertices_fold:
  assumes len: "length graph = length table"
  shows "fold (add_vertex P table polygon) [0..<m] (graph, [])
         = (map (\<lambda>j. graph ! j @ later_nodes P table polygon m j) [0..<length table],
            map (neighbours P table polygon) [0..<m])"
proof (induction m)
  case 0
  show ?case using len map_nth [of graph] by (simp add: later_nodes_def)
next
  case (Suc m)
  let ?g = "map (\<lambda>j. graph ! j @ later_nodes P table polygon m j) [0..<length table]"
  have lg: "length ?g = length table" by simp
  have step: "map (\<lambda>j. if visible P (polygon ! m) (table ! j) then ?g ! j @ [length table + m] else ?g ! j)
                [0..<length ?g]
              = map (\<lambda>j. graph ! j @ later_nodes P table polygon (Suc m) j) [0..<length table]"
    by (auto simp: later_nodes_def)
  have "fold (add_vertex P table polygon) [0..<Suc m] (graph, [])
          = add_vertex P table polygon m (fold (add_vertex P table polygon) [0..<m] (graph, []))"
    by simp
  also have "\<dots> = add_vertex P table polygon m (?g, map (neighbours P table polygon) [0..<m])"
    by (simp only: Suc)
  also have "\<dots> = (map (\<lambda>j. graph ! j @ later_nodes P table polygon (Suc m) j) [0..<length table],
                     map (neighbours P table polygon) [0..<Suc m])"
    by (simp add: add_vertex_def connect_vertex_eq [OF lg] step Let_def neighbours_def del: length_map)
  finally show ?case .
qed

lemma add_polygon_eq:
  "length graph = length table \<Longrightarrow>
   add_polygon P polygon (table, graph)
     = (table @ polygon,
        map (\<lambda>j. graph ! j @ later_nodes P table polygon (length polygon) j) [0..<length table]
          @ map (neighbours P table polygon) [0..<length polygon])"
  by (simp add: add_polygon_def Let_def vertices_fold)


lemma later_nodes_ge: "v \<in> set (later_nodes P table polygon m j) \<Longrightarrow> length table \<le> v \<and> v < length table + m"
  by (auto simp: later_nodes_def)

lemma later_nodes_mem:
  "length table + i \<in> set (later_nodes P table polygon m j) \<longleftrightarrow> i < m \<and> visible P (polygon ! i) (table ! j)"
  by (auto simp: later_nodes_def)

lemma neighbours_lt:
  "i < length polygon \<Longrightarrow> v \<in> set (neighbours P table polygon i) \<Longrightarrow> v < length table + length polygon"
proof -
  assume i: "i < length polygon" and v: "v \<in> set (neighbours P table polygon i)"
  from i have pos: "0 < int (length polygon)" by (cases polygon) simp_all
  have "(int i - 1) mod int (length polygon) < int (length polygon)"
    using pos by (rule pos_mod_bound)
  moreover have "0 \<le> (int i - 1) mod int (length polygon)"
    using pos by (rule pos_mod_sign)
  ultimately have "nat ((int i - 1) mod int (length polygon)) < length polygon" by linarith
  moreover from i have "(i + 1) mod length polygon < length polygon"
    by (intro mod_less_divisor) (cases polygon, simp_all)
  ultimately show ?thesis using v by (auto simp: neighbours_def)
qed

lemma add_polygon_ok:
  assumes "graph_ok table graph"
  shows "graph_ok (fst (add_polygon P polygon (table, graph))) (snd (add_polygon P polygon (table, graph)))"
proof -
  from assms have len: "length graph = length table"
    and old: "\<And>u v. u < length table \<Longrightarrow> v \<in> set (graph ! u) \<Longrightarrow> v < length table"
    by (auto simp: graph_ok_def)
  show ?thesis
    unfolding add_polygon_eq [OF len] graph_ok_def
  proof (intro conjI allI impI ballI)
    show "length (snd (table @ polygon,
            map (\<lambda>j. graph ! j @ later_nodes P table polygon (length polygon) j) [0..<length table]
              @ map (neighbours P table polygon) [0..<length polygon]))
          = length (fst (table @ polygon,
            map (\<lambda>j. graph ! j @ later_nodes P table polygon (length polygon) j) [0..<length table]
              @ map (neighbours P table polygon) [0..<length polygon]))"
      by simp
  next
    fix u v
    let ?g = "map (\<lambda>j. graph ! j @ later_nodes P table polygon (length polygon) j) [0..<length table]
              @ map (neighbours P table polygon) [0..<length polygon]"
    assume u: "u < length (snd (table @ polygon, ?g))" and v: "v \<in> set (snd (table @ polygon, ?g) ! u)"
    show "v < length (fst (table @ polygon, ?g))"
    proof (cases "u < length table")
      case True
      with v have "v \<in> set (graph ! u) \<or> v \<in> set (later_nodes P table polygon (length polygon) u)"
        by (auto simp: nth_append)
      then show ?thesis
      proof
        assume "v \<in> set (graph ! u)"
        from old [OF True this] show ?thesis by simp
      next
        assume "v \<in> set (later_nodes P table polygon (length polygon) u)"
        from later_nodes_ge [OF this] show ?thesis by simp
      qed
    next
      case False
      with u have i: "u - length table < length polygon" by simp
      from False u v have "v \<in> set (neighbours P table polygon (u - length table))"
        by (simp add: nth_append)
      from neighbours_lt [OF i this] show ?thesis by simp
    qed
  qed
qed

lemma add_polygon_prefix:
  assumes len: "length graph = length table" and u: "u < length table"
  shows "\<exists>xs. snd (add_polygon P polygon (table, graph)) ! u = graph ! u @ xs
              \<and> (\<forall>v\<in>set xs. length table \<le> v)"
  using u by (auto simp: add_polygon_eq [OF len] nth_append dest: later_nodes_ge)

lemma fold_add_polygon_table: "fst (fold (add_polygon P) ps tg) = fst tg @ concat ps"
  by (induction ps arbitrary: tg) (simp_all add: add_polygon_def Let_def)

lemma fold_add_polygon_ok:
  "graph_ok (fst tg) (snd tg) \<Longrightarrow>
   graph_ok (fst (fold (add_polygon P) ps tg)) (snd (fold (add_polygon P) ps tg))"
proof (induction ps arbitrary: tg)
  case Nil
  then show ?case by simp
next
  case (Cons p ps)
  from Cons.prems add_polygon_ok [of "fst tg" "snd tg" P p]
  have "graph_ok (fst (add_polygon P p tg)) (snd (add_polygon P p tg))" by simp
  then show ?case using Cons.IH by simp
qed

lemma fold_add_polygon_prefix:
  "graph_ok (fst tg) (snd tg) \<Longrightarrow> u < length (fst tg) \<Longrightarrow>
   \<exists>xs. snd (fold (add_polygon P) ps tg) ! u = snd tg ! u @ xs \<and> (\<forall>v\<in>set xs. length (fst tg) \<le> v)"
proof (induction ps arbitrary: tg)
  case Nil
  then show ?case by simp
next
  case (Cons p ps)
  let ?tg = "add_polygon P p tg"
  from Cons.prems have len: "length (snd tg) = length (fst tg)" by (simp add: graph_ok_def)
  from add_polygon_prefix [OF len Cons.prems(2), of P p]
  obtain xs where xs: "snd ?tg ! u = snd tg ! u @ xs" "\<forall>v\<in>set xs. length (fst tg) \<le> v" by auto
  have ok: "graph_ok (fst ?tg) (snd ?tg)"
    using add_polygon_ok [of "fst tg" "snd tg" P p] Cons.prems(1) by simp
  have tab: "fst ?tg = fst tg @ p" by (simp add: add_polygon_def Let_def)
  with Cons.prems(2) have u: "u < length (fst ?tg)" by simp
  from Cons.IH [OF ok u]
  obtain ys where ys: "snd (fold (add_polygon P) ps ?tg) ! u = snd ?tg ! u @ ys"
    "\<forall>v\<in>set ys. length (fst ?tg) \<le> v" by auto
  have "\<forall>v\<in>set (xs @ ys). length (fst tg) \<le> v" using xs(2) ys(2) tab by auto
  moreover have "snd (fold (add_polygon P) (p # ps) tg) ! u = snd tg ! u @ (xs @ ys)"
    using xs(1) ys(1) by simp
  ultimately show ?case by blast
qed

lemma graph_ok_empty: "graph_ok [] []"
  by (simp add: graph_ok_def)

lemma build_graph_table: "fst (build_graph P) = concat P"
  by (simp add: build_graph_def fold_add_polygon_table)

lemma build_graph_ok: "graph_ok (fst (build_graph P)) (snd (build_graph P))"
  unfolding build_graph_def using fold_add_polygon_ok [of "([], [])" P] graph_ok_empty by simp


lemma add_start_polygon: "add_polygon Q [s] ([], []) = ([s], [[0, 0]])"
  by (simp add: add_polygon_eq neighbours_def)

lemma add_end_polygon:
  "add_polygon Q [e] ([s], [[0, 0]])
     = ([s, e], [[0, 0] @ (if visible Q e s then [1] else []),
                 [1, 1] @ (if visible Q e s then [0] else [])])"
  by (simp add: add_polygon_eq neighbours_def later_nodes_def)

lemma start_end_adjacency:
  fixes s e :: point and rest :: "polygon list"
  defines "Q \<equiv> [s] # [e] # rest"
  shows "\<exists>xs ys. snd (build_graph Q) ! 0 = [0, 0] @ (if visible Q e s then [1] else []) @ xs
               \<and> snd (build_graph Q) ! 1 = [1, 1] @ (if visible Q e s then [0] else []) @ ys
               \<and> (\<forall>v\<in>set xs. 2 \<le> v) \<and> (\<forall>v\<in>set ys. 2 \<le> v)"
proof -
  let ?tg = "([s, e], [[0, 0] @ (if visible Q e s then [1] else []),
                       [1, 1] @ (if visible Q e s then [0] else [])])"
  have b: "build_graph Q = fold (add_polygon Q) rest ?tg"
    by (simp add: build_graph_def Q_def add_start_polygon add_end_polygon)
  have ok: "graph_ok (fst ?tg) (snd ?tg)"
    by (simp add: graph_ok_def less_Suc_eq)
  from fold_add_polygon_prefix [OF ok, of 0 Q rest]
  obtain xs where xs: "snd (fold (add_polygon Q) rest ?tg) ! 0 = snd ?tg ! 0 @ xs"
    "\<forall>v\<in>set xs. length (fst ?tg) \<le> v" by auto
  from fold_add_polygon_prefix [OF ok, of 1 Q rest]
  obtain ys where ys: "snd (fold (add_polygon Q) rest ?tg) ! 1 = snd ?tg ! 1 @ ys"
    "\<forall>v\<in>set ys. length (fst ?tg) \<le> v" by auto
  from xs(2) ys(2) have ge: "\<forall>v\<in>set xs. 2 \<le> v" "\<forall>v\<in>set ys. 2 \<le> v"
    by (simp_all add: numeral_2_eq_2)
  show ?thesis using xs(1) ys(1) ge unfolding b by auto
qed


lemma build_graph_split:
  assumes k: "k < length P"
  shows "build_graph P
         = fold (add_polygon P) (drop (Suc k) P)
             (add_polygon P (P ! k) (fold (add_polygon P) (take k P) ([], [])))"
proof -
  have "fold (add_polygon P) P ([], [])
        = fold (add_polygon P) (take k P @ P ! k # drop (Suc k) P) ([], [])"
    using id_take_nth_drop [OF k] by simp
  then show ?thesis by (simp add: build_graph_def)
qed

lemma polygon_adjacency:
  assumes k: "k < length P" and i: "i < length (P ! k)"
  defines "off \<equiv> length (concat (take k P))"
  defines "graph \<equiv> snd (build_graph P)"
  defines "table \<equiv> fst (build_graph P)"
  shows "table ! (off + i) = P ! k ! i"
    and "i' < length (P ! k) \<Longrightarrow>
           off + i' \<in> set (graph ! (off + i))
             \<longleftrightarrow> i' = nat ((int i - 1) mod int (length (P ! k))) \<or> i' = (i + 1) mod length (P ! k)"
    and "j < off \<Longrightarrow> j \<in> set (graph ! (off + i)) \<longleftrightarrow> visible P (P ! k ! i) (table ! j)"
    and "j < off \<Longrightarrow> off + i \<in> set (graph ! j) \<longleftrightarrow> visible P (P ! k ! i) (table ! j)"
proof -
  let ?tg0 = "fold (add_polygon P) (take k P) ([], [])"
  let ?T0 = "fst ?tg0" and ?G0 = "snd ?tg0"
  let ?n = "length (P ! k)"
  let ?G1 = "map (\<lambda>j. ?G0 ! j @ later_nodes P ?T0 (P ! k) ?n j) [0..<length ?T0]
               @ map (neighbours P ?T0 (P ! k)) [0..<?n]"
  have T0: "?T0 = concat (take k P)" by (simp add: fold_add_polygon_table)
  then have lT0: "length ?T0 = off" by (simp add: off_def)
  have ok0: "graph_ok ?T0 ?G0"
    using fold_add_polygon_ok [of "([], [])" P "take k P"] graph_ok_empty by simp
  then have len0: "length ?G0 = length ?T0" by (simp add: graph_ok_def)
  have tg1: "add_polygon P (P ! k) ?tg0 = (?T0 @ P ! k, ?G1)"
    using add_polygon_eq [OF len0, of P "P ! k"] by simp
  have ok1: "graph_ok (fst (?T0 @ P ! k, ?G1)) (snd (?T0 @ P ! k, ?G1))"
    using add_polygon_ok [OF ok0, of P "P ! k"] tg1 by simp
  have b: "build_graph P = fold (add_polygon P) (drop (Suc k) P) (?T0 @ P ! k, ?G1)"
    using build_graph_split [OF k] tg1 by simp
  have tab: "table = ?T0 @ P ! k @ concat (drop (Suc k) P)"
    unfolding table_def b by (simp add: fold_add_polygon_table)
  show "table ! (off + i) = P ! k ! i"
    using i lT0 by (simp add: tab nth_append)
  have old: "table ! j = ?T0 ! j" if "j < off" for j
    using that lT0 by (simp add: tab nth_append)
  have later: "v \<in> set (graph ! u) \<longleftrightarrow> v \<in> set (?G1 ! u)"
    if "u < off + ?n" "v < off + ?n" for u v
  proof -
    from that(1) lT0 have "u < length (fst (?T0 @ P ! k, ?G1))" by simp
    from fold_add_polygon_prefix [OF ok1 this, of P "drop (Suc k) P"]
    obtain xs where xs: "graph ! u = ?G1 ! u @ xs" "\<forall>w\<in>set xs. off + ?n \<le> w"
      unfolding graph_def b using lT0 by auto
    from xs(2) that(2) have "v \<notin> set xs" by auto
    with xs(1) show ?thesis by simp
  qed
  have own: "?G1 ! (off + i) = neighbours P ?T0 (P ! k) i"
    using i lT0 by (simp add: nth_append)
  have mem_own: "v \<in> set (?G1 ! (off + i)) \<longleftrightarrow>
      v = off + nat ((int i - 1) mod int ?n) \<or> v = off + (i + 1) mod ?n
      \<or> (v < off \<and> visible P (P ! k ! i) (?T0 ! v))" for v
    unfolding own neighbours_def using lT0 by auto
  show "off + i' \<in> set (graph ! (off + i))
          \<longleftrightarrow> i' = nat ((int i - 1) mod int ?n) \<or> i' = (i + 1) mod ?n"
    if "i' < ?n"
    using later [of "off + i" "off + i'"] i that mem_own [of "off + i'"] by simp
  show "j \<in> set (graph ! (off + i)) \<longleftrightarrow> visible P (P ! k ! i) (table ! j)" if "j < off"
    using later [of "off + i" j] i that mem_own [of j] old [OF that] by auto
  show "off + i \<in> set (graph ! j) \<longleftrightarrow> visible P (P ! k ! i) (table ! j)" if "j < off"
  proof -
    from that lT0 have "?G1 ! j = ?G0 ! j @ later_nodes P ?T0 (P ! k) ?n j"
      by (simp add: nth_append)
    moreover have "off + i \<notin> set (?G0 ! j)"
      using ok0 that lT0 by (auto simp: graph_ok_def)
    ultimately have "off + i \<in> set (?G1 ! j) \<longleftrightarrow> visible P (P ! k ! i) (?T0 ! j)"
      using later_nodes_mem [of ?T0 i P "P ! k" ?n j] i lT0 by simp
    then show ?thesis using later [of j "off + i"] i that old [OF that] by simp
  qed
qed

text \<open>
  Claim C6, as the code has it. The polygon-edge step is not skipped for the one-vertex
  polygons \<open>[start]\<close> and \<open>[end]\<close>: with \<open>n = 1\<close> both \<open>(i - 1) mod n\<close> and
  \<open>(i + 1) mod n\<close> are 0, so the adjacency list of node 0 begins with the two
  self-edges \<open>[0, 0]\<close> and that of node 1 with \<open>[1, 1]\<close>, for every input.
\<close>

theorem start_end_self_edges:
  "take 2 (snd (build_graph (considered_polygons start end_point buildings)) ! 0) = [0, 0]
   \<and> take 2 (snd (build_graph (considered_polygons start end_point buildings)) ! 1) = [1, 1]"
proof -
  let ?rest = "filter (\<lambda>polygon. segment_intersects_polygon (start, end_point) polygon \<noteq> 0) buildings"
  have q: "considered_polygons start end_point buildings = [start] # [end_point] # ?rest"
    by (simp add: considered_polygons_def)
  from start_end_adjacency [of start end_point ?rest]
  show ?thesis unfolding q by auto
qed

text \<open>
  The claim as stated fails already without obstacles: from \<open>(0, 0)\<close> to \<open>(10, 0)\<close>,
  node 0 is listed among its own neighbours, and so is node 1.
\<close>

theorem start_end_self_edges_counterexample:
  "0 \<in> set (snd (build_graph (considered_polygons (0, 0) (10, 0) [])) ! 0)
   \<and> 1 \<in> set (snd (build_graph (considered_polygons (0, 0) (10, 0) [])) ! 1)"
  by code_simp

text \<open>
  The claim C5 as stated fails for the square of the corner-skim scenario: the diagonal
  from node 2 \<open>(5, -5)\<close> to node 4 \<open>(15, 5)\<close> joins two non-adjacent vertices of the
  square, no considered polygon gives 2 (intersect) for it, and yet neither node is in
  the other's adjacency list.
\<close>

theorem same_polygon_chord_counterexample:
  "fst (build_graph (considered_polygons (0, 0) (20, 0) [[(5, - 5), (5, 5), (15, 5), (15, - 5)]])) ! 2 = (5, - 5)
   \<and> fst (build_graph (considered_polygons (0, 0) (20, 0) [[(5, - 5), (5, 5), (15, 5), (15, - 5)]])) ! 4 = (15, 5)
   \<and> visible (considered_polygons (0, 0) (20, 0) [[(5, - 5), (5, 5), (15, 5), (15, - 5)]])
        (5, - 5) (15, 5)
   \<and> 4 \<notin> set (snd (build_graph (considered_polygons (0, 0) (20, 0) [[(5, - 5), (5, 5), (15, 5), (15, - 5)]])) ! 2)
   \<and> 2 \<notin> set (snd (build_graph (considered_polygons (0, 0) (20, 0) [[(5, - 5), (5, 5), (15, 5), (15, - 5)]])) ! 4)"
  by code_simp

text \<open>
  Claim C5, as the code has it. Let vertex \<open>i\<close> of the \<open>k\<close>-th considered polygon have
  the node number \<open>off + i\<close>, where \<open>off\<close> is the number of vertices of the earlier
  polygons. Within its own polygon the vertex is adjacent to exactly its cyclic
  predecessor and successor: no chord between non-adjacent vertices of one polygon is
  ever added. With a vertex \<open>j\<close> of an earlier polygon it is joined, in both directions,
  exactly when \<^verbatim>\<open>segment_intersects_polygon\<close> differs from 2 for every considered
  polygon.
\<close>

theorem edges_of_a_polygon_vertex:
  assumes "k < length P" and "i < length (P ! k)"
  shows "(\<forall>i'<length (P ! k).
            length (concat (take k P)) + i'
              \<in> set (snd (build_graph P) ! (length (concat (take k P)) + i))
            \<longleftrightarrow> i' = nat ((int i - 1) mod int (length (P ! k))) \<or> i' = (i + 1) mod length (P ! k))
         \<and> (\<forall>j<length (concat (take k P)).
              (j \<in> set (snd (build_graph P) ! (length (concat (take k P)) + i))
                 \<longleftrightarrow> visible P (P ! k ! i) (fst (build_graph P) ! j))
              \<and> (length (concat (take k P)) + i \<in> set (snd (build_graph P) ! j)
                 \<longleftrightarrow> visible P (P ! k ! i) (fst (build_graph P) ! j)))"
  using polygon_adjacency(2-4) [OF assms] by blast

theorem edges_of_a_polygon_vertex_witness:
  "2 < length [[(0, 0)], [(20, 0)], [(5, - 5), (5, 5), (15, 5), (15, - 5)]]
   \<and> 0 < length ([[(0, 0)], [(20, 0)], [(5, - 5), (5, 5), (15, 5), (15, - 5 :: int)]] ! 2)
   \<and> 3 \<in> set (snd (build_graph [[(0, 0)], [(20, 0)], [(5, - 5), (5, 5), (15, 5), (15, - 5)]]) ! 2)
   \<and> 4 \<notin> set (snd (build_graph [[(0, 0)], [(20, 0)], [(5, - 5), (5, 5), (15, 5), (15, - 5)]]) ! 2)"
proof -
  let ?P = "[[(0, 0)], [(20, 0)], [(5, - 5), (5, 5), (15, 5), (15, - 5)]] :: polygon list"
  have k: "2 < length ?P" and i: "0 < length (?P ! 2)" by simp_all
  have off: "length (concat (take 2 ?P)) = 2" by (simp add: numeral_2_eq_2)
  from edges_of_a_polygon_vertex [OF k i]
  have "\<forall>i'<4. 2 + i' \<in> set (snd (build_graph ?P) ! 2) \<longleftrightarrow> i' = 3 \<or> i' = 1"
    unfolding off by simp
  then have h: "\<And>i'. i' < 4 \<Longrightarrow> 2 + i' \<in> set (snd (build_graph ?P) ! 2) \<longleftrightarrow> i' = 3 \<or> i' = 1"
    by blast
  from h [of 1] have "2 + 1 \<in> set (snd (build_graph ?P) ! 2)" by simp
  moreover from h [of 2] have "2 + 2 \<notin> set (snd (build_graph ?P) ! 2)" by simp
  ultimately show ?thesis by simp
qed

theorem start_end_self_edges_witness:
  "take 2 (snd (build_graph (considered_polygons (0, 0) (10, 0) [[(5, - 5), (5, 5), (15, 5)]])) ! 0) = [0, 0]
   \<and> take 2 (snd (build_graph (considered_polygons (0, 0) (10, 0) [[(5, - 5), (5, 5), (15, 5)]])) ! 1) = [1, 1]"
  using start_end_self_edges [of "(0, 0)" "(10, 0)" "[[(5, - 5), (5, 5), (15, 5)]]"] by simp


end
